theory Spec2Isabelle
  imports Main "HOL-Library.Sublist" "HOL-Library.Multiset"
begin

section \<open>Strings, tiles and the grid\<close>

text \<open>
  A JavaScript string is a sequence of UTF-16 code units; \<open>length\<close>, indexing and
  \<open>===\<close> work on code units. A code unit is modelled as a natural number.
\<close>

type_synonym jsstring = "nat list"

text \<open>An ASCII literal of the source, as code units.\<close>

definition js :: "string \<Rightarrow> jsstring" where
  "js s = map of_char s"

text \<open>\<open>s.replace(/-/g, '')\<close>: every hyphen-minus (code unit 45) is dropped.\<close>

definition removeDashes :: "jsstring \<Rightarrow> jsstring" where
  "removeDashes s = filter (\<lambda>u. u \<noteq> 45) s"

text \<open>
  \<open>String.prototype.toLowerCase\<close> belongs to the host. The functions below take it
  from the environment; \<open>toLowerCase_ru\<close> is its restriction to the Basic Latin and
  Cyrillic capitals (U+0041..U+005A, U+0400..U+042F), the alphabets of the game's
  keyboard, and is used for concrete runs.
\<close>

definition lower_unit :: "nat \<Rightarrow> nat" where
  "lower_unit u =
     (if 65 \<le> u \<and> u \<le> 90 then u + 32
      else if 1040 \<le> u \<and> u \<le> 1071 then u + 32
      else if 1024 \<le> u \<and> u \<le> 1039 then u + 80
      else u)"

definition toLowerCase_ru :: "jsstring \<Rightarrow> jsstring" where
  "toLowerCase_ru s = map lower_unit s"

text \<open>\<open>{ char, id }\<close>: what a grid cell holds.\<close>

record tile =
  tile_char :: jsstring
  tile_id :: jsstring

text \<open>\<open>GridState\<close>: an object keyed by cell index; a missing key is an empty cell.\<close>

type_synonym GridState = "nat \<rightharpoonup> tile"

text \<open>
  The per-letter content table \<open>LEARNING_DATA[letter]\<close>.
\<close>

record letter_data =
  syllables :: "jsstring list"
  words :: "jsstring list"

text \<open>
  What the component imports from modules outside the sources at hand (\<open>constants\<close>,
  \<open>learningData\<close>) and from the host: taken as parameters.
\<close>

record env =
  GRID_ROWS :: nat
  GRID_COLS :: nat
  toLowerCase :: "jsstring \<Rightarrow> jsstring"
  LEARNING_DATA :: "jsstring \<rightharpoonup> letter_data"

text \<open>\<open>xs[i]\<close> on a JavaScript array: \<open>undefined\<close> out of range.\<close>

definition js_index :: "'a list \<Rightarrow> nat \<Rightarrow> 'a option" where
  "js_index xs i = (if i < length xs then Some (xs ! i) else None)"

section \<open>The match detector\<close>

text \<open>\<open>item ? item.char.toLowerCase() : ' '\<close> for the cell \<open>idx\<close>.\<close>

definition cellChars :: "env \<Rightarrow> GridState \<Rightarrow> nat \<Rightarrow> jsstring" where
  "cellChars E state idx =
     (case state idx of Some item \<Rightarrow> toLowerCase E (tile_char item) | None \<Rightarrow> [32])"

text \<open>The inner loop over \<open>c\<close>: the array \<open>rowChars\<close> of row \<open>r\<close>, one string per cell.\<close>

definition rowChars :: "env \<Rightarrow> GridState \<Rightarrow> nat \<Rightarrow> jsstring list" where
  "rowChars E state r = map (\<lambda>c. cellChars E state (r * GRID_COLS E + c)) [0..<GRID_COLS E]"

text \<open>
  The loop over \<open>j\<close>: \<open>match\<close> stays true iff no position has
  \<open>rowChars[i+j] !== cleanTarget[j]\<close>. The left side is a whole string (or
  \<open>undefined\<close>), the right side the one-unit string at \<open>j\<close>.
\<close>

definition matchAt :: "jsstring list \<Rightarrow> jsstring \<Rightarrow> nat \<Rightarrow> bool" where
  "matchAt rc cleanTarget i =
     list_all (\<lambda>j. js_index rc (i + j) = Some [cleanTarget ! j]) [0..<length cleanTarget]"

text \<open>
  The loop over \<open>i\<close>, from 0 while \<open>i <= rowChars.length - cleanTarget.length\<close>
  (a signed difference: no iteration when the target is longer than the row).
\<close>

definition rowMatches :: "jsstring list \<Rightarrow> jsstring \<Rightarrow> bool" where
  "rowMatches rc cleanTarget =
     list_ex (matchAt rc cleanTarget)
       [i \<leftarrow> [0..<Suc (length rc)]. int i \<le> int (length rc) - int (length cleanTarget)]"

definition checkGridForWord :: "env \<Rightarrow> GridState \<Rightarrow> jsstring \<Rightarrow> bool" where
  "checkGridForWord E state targetWord =
     (let cleanTarget = toLowerCase E (removeDashes targetWord)
      in list_ex (\<lambda>r. rowMatches (rowChars E state r) cleanTarget) [0..<GRID_ROWS E])"

section \<open>The score\<close>

text \<open>The star computation at the head of \<open>finishGame\<close>.\<close>

definition finishGame_stars :: "nat \<Rightarrow> nat" where
  "finishGame_stars finalFailedCount =
     (if finalFailedCount \<ge> 6 then 0
      else if finalFailedCount \<ge> 4 then 1
      else if finalFailedCount \<ge> 2 then 2
      else 3)"

section \<open>Session state\<close>

datatype task_kind = Syllable | Word

text \<open>\<open>interface Task { text; type }\<close>.\<close>

record task =
  task_text :: jsstring
  task_type :: task_kind

datatype origin = Grid | Keyboard

text \<open>
  \<open>DragData\<close>, the payload of the dragged element, as the handlers read it:
  \<open>origin\<close>, \<open>char\<close>, and the optional \<open>id\<close> and \<open>index\<close> (\<open>None\<close> is
  \<open>undefined\<close>).
\<close>

record DragData =
  drag_origin :: origin
  drag_char :: jsstring
  drag_id :: "jsstring option"
  drag_index :: "nat option"

text \<open>
  The droppable under the pointer (\<open>event.over\<close> when it is not null): the keyboard
  area (\<open>over.id === 'keyboard-area'\<close>), a droppable whose id starts with
  \<open>cell-\<close>, carrying \<open>over.data.current?.index\<close>, or anything else.
\<close>

datatype drop_target = KeyboardArea | Cell "nat option" | OtherTarget

text \<open>
  A drag-end event, together with what the handler reads from the host while it runs:
  the renderings of \<open>Date.now()\<close> and \<open>Math.random()\<close> inside the template
  literals that build tile ids.
\<close>

record DragEndEvent =
  active_data :: DragData
  over :: "drop_target option"
  date_now :: jsstring
  math_random :: jsstring

datatype sound = Grab | Drop | Rustle | SuccessSound | Fanfare

text \<open>
  Calls into the audio module and the speech engine are recorded in order; the argument of
  \<open>SpeakText\<close> is the text handed to \<open>speakText\<close>.
\<close>

datatype effect = InitVoices | CancelSpeech | PlaySound sound | SpeakText jsstring

text \<open>
  The item of \<open>localStorage\<close> under the progress key: absent (or empty, which is
  falsy), a text that \<open>JSON.parse\<close> rejects, or the JSON of a letter-to-stars object.
\<close>

datatype stored = NoItem | Unparsable | Stored "jsstring \<rightharpoonup> nat"

text \<open>
  What the callbacks scheduled by \<open>handleTaskSuccess\<close> captured from the render in
  which the match happened.
\<close>

record success_closure =
  cl_currentTaskIndex :: nat
  cl_tasks :: "task list"
  cl_failedStepsCount :: nat
  cl_isFailedStep :: bool

text \<open>
  The callbacks waiting in \<open>setTimeout\<close>: the first announcement (800 ms after
  mount), the one after the spoken word (1000 ms) and the one after the success sound
  (2000 ms more).
\<close>

datatype pending =
  AnnounceFirst "task option" | AfterSpeak success_closure | AfterSound success_closure

text \<open>
  The component's state (one field per \<open>useState\<close>, and the \<open>letter\<close> prop),
  the timers it has scheduled, the progress item of \<open>localStorage\<close> and the effects
  issued so far. \<open>dragSize\<close>, the pixel size of the drag ghost, is left out.
\<close>

record session =
  letter :: jsstring
  gridState :: GridState
  activeDragData :: "DragData option"
  tasks :: "task list"
  currentTaskIndex :: nat
  moveCount :: nat
  failedStepsCount :: nat
  completedSteps :: "bool list"
  isProcessingSuccess :: bool
  gameFinished :: bool
  finalStars :: nat
  timers :: "pending list"
  progressStore :: stored
  effects :: "effect list"

text \<open>The initial values of the \<open>useState\<close> calls.\<close>

definition initialSession :: "jsstring \<Rightarrow> stored \<Rightarrow> session" where
  "initialSession l store =
     \<lparr> letter = l, gridState = Map.empty, activeDragData = None, tasks = [],
       currentTaskIndex = 0, moveCount = 0, failedStepsCount = 0,
       completedSteps = replicate 6 False, isProcessingSuccess = False,
       gameFinished = False, finalStars = 0, timers = [], progressStore = store,
       effects = [] \<rparr>"

section \<open>Storage\<close>



section \<open>Audio and speech\<close>

definition playSound :: "sound \<Rightarrow> session \<Rightarrow> session" where
  "playSound type S = S\<lparr>effects := effects S @ [PlaySound type]\<rparr>"

definition speakText :: "jsstring \<Rightarrow> session \<Rightarrow> session" where
  "speakText t S = S\<lparr>effects := effects S @ [SpeakText t]\<rparr>"

text \<open>The two prompt prefixes, "write the syllable " and "write the word ", in Russian.\<close>

definition prompt_syllable :: jsstring where
  "prompt_syllable =
     [0x41D, 0x430, 0x43F, 0x438, 0x448, 0x438, 0x20, 0x441, 0x43B, 0x43E, 0x433, 0x20]"

definition prompt_word :: jsstring where
  "prompt_word =
     [0x41D, 0x430, 0x43F, 0x438, 0x448, 0x438, 0x20, 0x441, 0x43B, 0x43E, 0x432, 0x43E, 0x20]"

definition announceTask :: "task option \<Rightarrow> session \<Rightarrow> session" where
  "announceTask t S =
     (case t of
        None \<Rightarrow> S
      | Some tk \<Rightarrow>
          (let cleanText = removeDashes (task_text tk);
               prompt = (if task_type tk = Syllable then prompt_syllable @ task_text tk
                         else prompt_word @ cleanText)
           in speakText prompt S))"

text \<open>
  The re-announce button is part of the game screen, which the component returns only
  when \<open>gameFinished\<close> is false; its handler is
  \<open>() => announceTask(tasks[currentTaskIndex])\<close>.
\<close>

definition reannounceButtonRendered :: "session \<Rightarrow> bool" where
  "reannounceButtonRendered S = (\<not> gameFinished S)"

definition onReannounceClick :: "session \<Rightarrow> session" where
  "onReannounceClick S = announceTask (js_index (tasks S) (currentTaskIndex S)) S"

section \<open>Session initialisation\<close>

text \<open>
  \<open>shuffle\<close> copies the array and sorts the copy with a comparator that answers at
  random. Which order comes out is decided by the engine's sort and the random
  generator; it is given as \<open>order\<close>, the positions of the array in the order in which
  their elements appear in the result.
\<close>

definition shuffle :: "nat list \<Rightarrow> 'a list \<Rightarrow> 'a list" where
  "shuffle order array = map (\<lambda>i. array ! i) order"

text \<open>Sorting rearranges: every position of an array of length \<open>n\<close> occurs once.\<close>

definition rearrangement :: "nat list \<Rightarrow> nat \<Rightarrow> bool" where
  "rearrangement order n = (mset order = mset [0..<n])"

text \<open>
  The mount effect; \<open>syllableOrder\<close> and \<open>wordOrder\<close> are the outcomes of the two
  random sorts.
\<close>

definition initEffect :: "env \<Rightarrow> nat list \<Rightarrow> nat list \<Rightarrow> session \<Rightarrow> session" where
  "initEffect E syllableOrder wordOrder S =
     (let S0 = S\<lparr>effects := effects S @ [InitVoices]\<rparr>
      in case LEARNING_DATA E (letter S) of
           None \<Rightarrow> S0
         | Some data \<Rightarrow>
             (let syls = map (\<lambda>t. \<lparr>task_text = t, task_type = Syllable\<rparr>)
                           (take 3 (shuffle syllableOrder (syllables data)));
                  wrds = map (\<lambda>t. \<lparr>task_text = t, task_type = Word\<rparr>)
                           (take 3 (shuffle wordOrder (words data)));
                  gameTasks = syls @ wrds;
                  S1 = S0\<lparr>tasks := gameTasks\<rparr>
              in S1\<lparr>timers := timers S1 @ [AnnounceFirst (js_index gameTasks 0)]\<rparr>))"

section \<open>Drag handlers\<close>

definition handleDragStart :: "session \<Rightarrow> DragData \<Rightarrow> session" where
  "handleDragStart S d =
     (if gameFinished S \<or> isProcessingSuccess S then S
      else
        (let S1 = S\<lparr>effects := effects S @ [CancelSpeech]\<rparr>;
             S2 = S1\<lparr>activeDragData := Some d\<rparr>
         in if drag_origin d = Grid then playSound Rustle S2 else playSound Grab S2))"

text \<open>\<open>data.id || `item-${Date.now()}`\<close>: a missing or empty id is replaced.\<close>

definition movedTileId :: "DragData \<Rightarrow> jsstring \<Rightarrow> jsstring" where
  "movedTileId d now =
     (case drag_id d of
        Some i \<Rightarrow> (if i \<noteq> [] then i else js ''item-'' @ now)
      | None \<Rightarrow> js ''item-'' @ now)"

text \<open>\<open>`placed-${data.char}-${Date.now()}-${Math.random()}`\<close>.\<close>

definition placedTileId :: "DragData \<Rightarrow> jsstring \<Rightarrow> jsstring \<Rightarrow> jsstring" where
  "placedTileId d now rnd = js ''placed-'' @ drag_char d @ js ''-'' @ now @ js ''-'' @ rnd"

text \<open>
  The drop logic of \<open>handleDragEnd\<close>, from the copy \<open>nextState = { ...gridState }\<close>
  to the final \<open>nextState\<close> and \<open>didChange\<close>.
\<close>

definition dropLogic :: "GridState \<Rightarrow> DragEndEvent \<Rightarrow> drop_target \<Rightarrow> GridState \<times> bool" where
  "dropLogic gridState0 ev ov =
     (let d = active_data ev in
      if drag_origin d = Grid \<and> ov = KeyboardArea then
        ((case drag_index d of Some i \<Rightarrow> gridState0(i := None) | None \<Rightarrow> gridState0), True)
      else
        (case ov of
           Cell (Some targetIndex) \<Rightarrow>
             (let existingItem = gridState0 targetIndex in
              case (drag_origin d, drag_index d) of
                (Grid, Some i) \<Rightarrow>
                  (if i \<noteq> targetIndex then
                     (let n1 = gridState0(i := None);
                          n2 = (case existingItem of Some e \<Rightarrow> n1(i \<mapsto> e) | None \<Rightarrow> n1);
                          n3 = n2(targetIndex \<mapsto>
                                 \<lparr>tile_char = drag_char d, tile_id = movedTileId d (date_now ev)\<rparr>)
                      in (n3, True))
                   else (gridState0, False))
              | (Grid, None) \<Rightarrow> (gridState0, False)
              | (Keyboard, _) \<Rightarrow>
                  (let newId = placedTileId d (date_now ev) (math_random ev)
                   in (gridState0(targetIndex \<mapsto> \<lparr>tile_char = drag_char d, tile_id = newId\<rparr>),
                       True)))
         | _ \<Rightarrow> (gridState0, False)))"

text \<open>
  \<open>handleTaskSuccess\<close> is a closure of the render \<open>C\<close> in which the drag ended: it
  reads \<open>moveCount\<close>, \<open>currentTaskIndex\<close>, \<open>tasks\<close> and \<open>failedStepsCount\<close>
  of \<open>C\<close>, while its state setters act on \<open>S\<close>, the state with the updates queued so
  far in the same event.
\<close>

definition handleTaskSuccess :: "session \<Rightarrow> task \<Rightarrow> session \<Rightarrow> session" where
  "handleTaskSuccess C tk S =
     (let S1 = S\<lparr>isProcessingSuccess := True\<rparr>;
          cleanText = removeDashes (task_text tk);
          limit = length cleanText + 3;
          isFailedStep = (moveCount C > limit);
          S2 = (if isFailedStep then S1\<lparr>failedStepsCount := failedStepsCount S1 + 1\<rparr> else S1);
          S3 = speakText cleanText S2
      in S3\<lparr>timers := timers S3 @
               [AfterSpeak \<lparr>cl_currentTaskIndex = currentTaskIndex C, cl_tasks = tasks C,
                           cl_failedStepsCount = failedStepsCount C,
                           cl_isFailedStep = isFailedStep\<rparr>]\<rparr>)"

definition handleDragEnd :: "env \<Rightarrow> session \<Rightarrow> DragEndEvent \<Rightarrow> session" where
  "handleDragEnd E S ev =
     (if gameFinished S \<or> isProcessingSuccess S then S\<lparr>activeDragData := None\<rparr>
      else
        (let d = active_data ev;
             S1 = playSound Drop (S\<lparr>activeDragData := None\<rparr>)
         in case over ev of
              None \<Rightarrow> S1
            | Some ov \<Rightarrow>
                (let (nextState, didChange) = dropLogic (gridState S) ev ov in
                 if didChange then
                   (let S2 = S1\<lparr>gridState := nextState\<rparr>;
                        newMoveCount = moveCount S + 1;
                        S3 = S2\<lparr>moveCount := newMoveCount\<rparr>
                    in case js_index (tasks S) (currentTaskIndex S) of
                         Some currentTask \<Rightarrow>
                           (if checkGridForWord E nextState (task_text currentTask)
                            then handleTaskSuccess S currentTask S3
                            else speakText (drag_char d) S3)
                       | None \<Rightarrow> speakText (drag_char d) S3)
                 else S1)))"

section \<open>The success choreography\<close>







section \<open>The match detector, as specified\<close>

text \<open>The target with the boundary markers removed, lowercased.\<close>

definition normalizedTarget :: "env \<Rightarrow> jsstring \<Rightarrow> jsstring" where
  "normalizedTarget E W = toLowerCase E (removeDashes W)"

text \<open>
  Row \<open>r\<close> read left to right as one string, a blank for each empty cell: with the
  characters as the tiles carry them, and with each tile's character lowercased.
\<close>

definition rowTextAsPlaced :: "env \<Rightarrow> GridState \<Rightarrow> nat \<Rightarrow> jsstring" where
  "rowTextAsPlaced E G r =
     concat (map (\<lambda>c. case G (r * GRID_COLS E + c) of
                         Some t \<Rightarrow> tile_char t | None \<Rightarrow> [32])
                 [0..<GRID_COLS E])"

definition rowText :: "env \<Rightarrow> GridState \<Rightarrow> nat \<Rightarrow> jsstring" where
  "rowText E G r =
     concat (map (\<lambda>c. case G (r * GRID_COLS E + c) of
                         Some t \<Rightarrow> toLowerCase E (tile_char t) | None \<Rightarrow> [32])
                 [0..<GRID_COLS E])"

text \<open>Some single row contains the normalized target as a contiguous substring.\<close>

definition someRowContainsAsPlaced :: "env \<Rightarrow> GridState \<Rightarrow> jsstring \<Rightarrow> bool" where
  "someRowContainsAsPlaced E G W =
     list_ex (\<lambda>r. sublist (normalizedTarget E W) (rowTextAsPlaced E G r)) [0..<GRID_ROWS E]"

definition someRowContains :: "env \<Rightarrow> GridState \<Rightarrow> jsstring \<Rightarrow> bool" where
  "someRowContains E G W =
     list_ex (\<lambda>r. sublist (normalizedTarget E W) (rowText E G r)) [0..<GRID_ROWS E]"

text \<open>
  Every cell of the grid shows one code unit: each tile holds a single character whose
  lowercase form is a single character.
\<close>

definition singleUnitCells :: "env \<Rightarrow> GridState \<Rightarrow> bool" where
  "singleUnitCells E state =
     list_all (\<lambda>idx. length (cellChars E state idx) = 1) [0..<GRID_ROWS E * GRID_COLS E]"

section \<open>Well-formed grids and drags\<close>

text \<open>Each tile id occupies at most one cell.\<close>

definition ids_unique :: "GridState \<Rightarrow> bool" where
  "ids_unique g =
     (\<forall>i j a b. g i = Some a \<longrightarrow> g j = Some b \<longrightarrow> tile_id a = tile_id b \<longrightarrow> i = j)"

text \<open>
  A grid tile is rendered as a draggable with the tile's \<open>id\<close> and \<open>char\<close>, the
  origin \<open>grid\<close> and the index of its cell: the payload of a drag from the grid
  describes the tile in the cell it names. Ids in the grid are never empty.
\<close>

definition payloadOfGridTile :: "GridState \<Rightarrow> DragData \<Rightarrow> bool" where
  "payloadOfGridTile g d =
     (case drag_index d of
        None \<Rightarrow> False
      | Some i \<Rightarrow>
          (case g i of
             None \<Rightarrow> False
           | Some t \<Rightarrow>
               drag_char d = tile_char t \<and> drag_id d = Some (tile_id t) \<and> tile_id t \<noteq> []))"

text \<open>
  A drag from the grid carries the payload of a grid tile; for a drag from the keyboard
  the id built from the clock and the random number is not yet in the grid.
\<close>

definition wellFormedDrag :: "GridState \<Rightarrow> DragEndEvent \<Rightarrow> bool" where
  "wellFormedDrag g ev =
     (case drag_origin (active_data ev) of
        Grid \<Rightarrow> payloadOfGridTile g (active_data ev)
      | Keyboard \<Rightarrow>
          placedTileId (active_data ev) (date_now ev) (math_random ev) \<notin> tile_id ` ran g)"

section \<open>Concrete data for runs\<close>

text \<open>
  The letters A and U and the Cyrillic targets of the runs: the words "sok", "ok", "kos",
  "mama" and the syllables "a-m", "m-a", "u-m", "a-u".
\<close>

definition letter_A :: jsstring where "letter_A = [0x410]"
definition word_sok :: jsstring where "word_sok = [0x441, 0x43E, 0x43A]"
definition word_ok :: jsstring where "word_ok = [0x43E, 0x43A]"
definition word_kos :: jsstring where "word_kos = [0x43A, 0x43E, 0x441]"
definition word_mama :: jsstring where "word_mama = [0x43C, 0x430, 0x43C, 0x430]"
definition syllable_a_m :: jsstring where "syllable_a_m = [0x430, 45, 0x43C]"
definition syllable_m_a :: jsstring where "syllable_m_a = [0x43C, 45, 0x430]"
definition syllable_u_m :: jsstring where "syllable_u_m = [0x443, 45, 0x43C]"
definition syllable_a_u :: jsstring where "syllable_a_u = [0x430, 45, 0x443]"

definition demo_data :: letter_data where
  "demo_data = \<lparr> syllables = [syllable_a_m, syllable_m_a, syllable_u_m, syllable_a_u],
                  words = [word_mama, word_sok, word_kos, word_ok] \<rparr>"

text \<open>
  A grid of two rows of five cells, the Latin and Cyrillic lowercase mapping, and content
  for the letter A only.
\<close>

definition demo_env :: env where
  "demo_env = \<lparr> GRID_ROWS = 2, GRID_COLS = 5, toLowerCase = toLowerCase_ru,
                 LEARNING_DATA = [letter_A \<mapsto> demo_data] \<rparr>"

text \<open>Row 0 holding the lowercase tiles s, o, k and two empty cells; row 1 empty.\<close>

definition grid_sok :: GridState where
  "grid_sok = [0 \<mapsto> \<lparr>tile_char = [0x441], tile_id = js ''t1''\<rparr>,
               1 \<mapsto> \<lparr>tile_char = [0x43E], tile_id = js ''t2''\<rparr>,
               2 \<mapsto> \<lparr>tile_char = [0x43A], tile_id = js ''t3''\<rparr>]"

text \<open>The same row with the capital tiles S, O, K.\<close>

definition grid_SOK :: GridState where
  "grid_SOK = [0 \<mapsto> \<lparr>tile_char = [0x421], tile_id = js ''t1''\<rparr>,
               1 \<mapsto> \<lparr>tile_char = [0x41E], tile_id = js ''t2''\<rparr>,
               2 \<mapsto> \<lparr>tile_char = [0x41A], tile_id = js ''t3''\<rparr>]"

text \<open>The letter o in the last cell of row 0 and k in the first cell of row 1.\<close>

definition grid_ok_wrapped :: GridState where
  "grid_ok_wrapped = [4 \<mapsto> \<lparr>tile_char = [0x43E], tile_id = js ''t1''\<rparr>,
                      5 \<mapsto> \<lparr>tile_char = [0x43A], tile_id = js ''t2''\<rparr>]"

definition demo_tasks :: "task list" where
  "demo_tasks =
     [\<lparr>task_text = syllable_a_m, task_type = Syllable\<rparr>,
      \<lparr>task_text = syllable_m_a, task_type = Syllable\<rparr>,
      \<lparr>task_text = syllable_u_m, task_type = Syllable\<rparr>,
      \<lparr>task_text = word_mama, task_type = Word\<rparr>,
      \<lparr>task_text = word_sok, task_type = Word\<rparr>,
      \<lparr>task_text = word_kos, task_type = Word\<rparr>]"

text \<open>
  A session on its first task "a-m" after five moves, the tile a in cell 0; and the drop
  of the keyboard tile m on cell 1, which completes the syllable.
\<close>

definition session_a_m_5 :: session where
  "session_a_m_5 =
     (initialSession letter_A NoItem)
       \<lparr> tasks := demo_tasks, moveCount := 5,
         gridState := [0 \<mapsto> \<lparr>tile_char = [0x430], tile_id = js ''placed-a''\<rparr>] \<rparr>"

definition drop_m_on_cell_1 :: DragEndEvent where
  "drop_m_on_cell_1 =
     \<lparr> active_data = \<lparr>drag_origin = Keyboard, drag_char = [0x43C],
                       drag_id = Some (js ''keyboard-m''), drag_index = None\<rparr>,
       over = Some (Cell (Some 1)), date_now = js ''1700000000000'',
       math_random = js ''0.25'' \<rparr>"

text \<open>The session right after that drop: the success choreography is in progress.\<close>

definition session_locked :: session where
  "session_locked = handleDragEnd demo_env session_a_m_5 drop_m_on_cell_1"


definition drop_s_on_cell_2 :: DragEndEvent where
  "drop_s_on_cell_2 =
     \<lparr> active_data = \<lparr>drag_origin = Keyboard, drag_char = [0x441],
                       drag_id = Some (js ''keyboard-s''), drag_index = None\<rparr>,
       over = Some (Cell (Some 2)), date_now = js ''1700000000000'',
       math_random = js ''0.25'' \<rparr>"

text \<open>
  A session on the task "a-m" whose grid holds s, o, k; the tile s of cell 0 dragged onto
  the tile o in cell 1, dropped outside every droppable, and dropped back on cell 0.
\<close>

definition session_sok :: session where
  "session_sok =
     (initialSession letter_A NoItem)
       \<lparr> tasks := demo_tasks, moveCount := 3, gridState := grid_sok \<rparr>"

definition drag_of_tile_0 :: DragData where
  "drag_of_tile_0 = \<lparr>drag_origin = Grid, drag_char = [0x441], drag_id = Some (js ''t1''),
                      drag_index = Some 0\<rparr>"

definition tile_0_to_cell_1 :: DragEndEvent where
  "tile_0_to_cell_1 =
     \<lparr> active_data = drag_of_tile_0, over = Some (Cell (Some 1)),
       date_now = js ''1700000000000'', math_random = js ''0.25'' \<rparr>"



text \<open>
  A session on the task "a-m" with an empty grid, and the keyboard tile a dropped on a
  cell while the clock reads 1700000000000 and the random number is 0.25; the tile that
  such a drop places, and the session after a first such drop on cell 0.
\<close>

definition session_fresh :: session where
  "session_fresh = (initialSession letter_A NoItem)\<lparr> tasks := demo_tasks \<rparr>"

definition drag_key_a :: DragData where
  "drag_key_a = \<lparr>drag_origin = Keyboard, drag_char = [0x430],
                  drag_id = Some (js ''keyboard-a''), drag_index = None\<rparr>"

definition key_a_to_cell :: "nat \<Rightarrow> DragEndEvent" where
  "key_a_to_cell j =
     \<lparr> active_data = drag_key_a, over = Some (Cell (Some j)),
       date_now = js ''1700000000000'', math_random = js ''0.25'' \<rparr>"

definition tile_a_placed :: tile where
  "tile_a_placed = \<lparr>tile_char = [0x430],
                     tile_id = js ''placed-'' @ [0x430] @ js ''-1700000000000-0.25''\<rparr>"

definition session_one_a :: session where
  "session_one_a = handleDragEnd demo_env session_fresh (key_a_to_cell 0)"

section \<open>Properties\<close>

text \<open>
  C3. The score is defined for every non-negative failed-steps count: 0 or 1 failed steps
  give 3 stars, 2 or 3 give 2, 4 or 5 give 1, and 6 or more give 0.
\<close>

theorem finishGame_stars_table:
  "finishGame_stars n =
     (if n \<in> {0, 1} then 3 else if n \<in> {2, 3} then 2 else if n \<in> {4, 5} then 1 else 0)"
  by (simp add: finishGame_stars_def)

subsection \<open>The match detector\<close>

lemma sublist_iff_window:
  "sublist xs ys \<longleftrightarrow> (\<exists>i. i + length xs \<le> length ys \<and> take (length xs) (drop i ys) = xs)"
proof
  assume "sublist xs ys"
  then obtain ps ss where "ys = ps @ xs @ ss" by (auto simp: sublist_def)
  then have "length ps + length xs \<le> length ys \<and> take (length xs) (drop (length ps) ys) = xs"
    by simp
  then show "\<exists>i. i + length xs \<le> length ys \<and> take (length xs) (drop i ys) = xs" by blast
next
  assume "\<exists>i. i + length xs \<le> length ys \<and> take (length xs) (drop i ys) = xs"
  then obtain i where i: "i + length xs \<le> length ys" "take (length xs) (drop i ys) = xs" by blast
  have "ys = take i ys @ take (length xs) (drop i ys) @ drop (length xs) (drop i ys)"
    by (metis append_take_drop_id)
  with i(2) have "ys = take i ys @ xs @ drop (length xs) (drop i ys)" by simp
  then show "sublist xs ys" unfolding sublist_def by blast
qed

lemma window_iff_nth:
  assumes "i + length xs \<le> length ys"
  shows "take (length xs) (drop i ys) = xs \<longleftrightarrow> (\<forall>j<length xs. ys ! (i + j) = xs ! j)"
  using assms by (auto simp: list_eq_iff_nth_eq)

text \<open>The loop over \<open>i\<close> visits exactly the start positions at which the target fits.\<close>

lemma rowMatches_iff:
  "rowMatches rc ct \<longleftrightarrow> (\<exists>i. i + length ct \<le> length rc \<and> matchAt rc ct i)"
proof -
  have "\<And>i. (i < Suc (length rc) \<and> int i \<le> int (length rc) - int (length ct))
           = (i + length ct \<le> length rc)"
    by linarith
  then show ?thesis
    unfolding rowMatches_def list_ex_iff set_filter set_upt by auto
qed

lemma matchAt_singletons:
  "matchAt (map (\<lambda>u. [u]) us) ct i \<longleftrightarrow>
   (\<forall>j<length ct. i + j < length us \<and> us ! (i + j) = ct ! j)"
  by (auto simp: matchAt_def list_all_iff js_index_def)

lemma rowMatches_singletons:
  "rowMatches (map (\<lambda>u. [u]) us) ct \<longleftrightarrow> sublist ct us"
proof -
  have "rowMatches (map (\<lambda>u. [u]) us) ct \<longleftrightarrow>
        (\<exists>i. i + length ct \<le> length us \<and> (\<forall>j<length ct. us ! (i + j) = ct ! j))"
    unfolding rowMatches_iff matchAt_singletons by auto
  also have "\<dots> \<longleftrightarrow> sublist ct us"
    unfolding sublist_iff_window using window_iff_nth by blast
  finally show ?thesis .
qed

lemma singletons_of_concat:
  "(\<And>x. x \<in> set xs \<Longrightarrow> length (f x) = 1) \<Longrightarrow> map (\<lambda>u. [u]) (concat (map f xs)) = map f xs"
proof (induction xs)
  case Nil
  then show ?case by simp
next
  case (Cons a xs)
  then have "length (f a) = 1" by simp
  then obtain u where "f a = [u]" by (cases "f a") auto
  with Cons show ?case by simp
qed

lemma cell_in_grid: "r < rows \<Longrightarrow> c < cols \<Longrightarrow> r * cols + c < rows * (cols::nat)"
proof -
  assume a: "r < rows" "c < cols"
  then have "r * cols + c < Suc r * cols" by simp
  also from a have "\<dots> \<le> rows * cols" by (intro mult_le_mono1) simp
  finally show ?thesis .
qed

lemma rowText_cellChars: "rowText E G r = concat (rowChars E G r)"
  by (simp add: rowText_def rowChars_def cellChars_def)

lemma rowChars_singletons:
  assumes "singleUnitCells E G" "r < GRID_ROWS E"
  shows "rowChars E G r = map (\<lambda>u. [u]) (rowText E G r)"
proof -
  have "\<And>c. c \<in> set [0..<GRID_COLS E] \<Longrightarrow> length (cellChars E G (r * GRID_COLS E + c)) = 1"
    using assms cell_in_grid[of r "GRID_ROWS E" _ "GRID_COLS E"]
    by (auto simp: singleUnitCells_def list_all_iff)
  then have "map (\<lambda>u. [u]) (concat (map (\<lambda>c. cellChars E G (r * GRID_COLS E + c)) [0..<GRID_COLS E]))
             = map (\<lambda>c. cellChars E G (r * GRID_COLS E + c)) [0..<GRID_COLS E]"
    by (rule singletons_of_concat)
  then show ?thesis by (simp add: rowText_cellChars rowChars_def)
qed

text \<open>
  C2, as amended. On a grid whose cells each show one character, the detector answers
  true exactly when some single row, read left to right with each tile's character
  lowercased and a blank for each empty cell, contains the normalized target as a
  contiguous substring.
\<close>

theorem checkGridForWord_iff_someRowContains:
  assumes "singleUnitCells E G"
  shows "checkGridForWord E G W = someRowContains E G W"
  using assms
  by (auto simp: checkGridForWord_def someRowContains_def normalizedTarget_def list_ex_iff
      rowChars_singletons rowMatches_singletons)

theorem checkGridForWord_iff_someRowContains_witness:
  "singleUnitCells demo_env grid_sok \<and> someRowContains demo_env grid_sok word_ok
   \<and> checkGridForWord demo_env grid_sok word_ok"
proof -
  have h: "singleUnitCells demo_env grid_sok" by code_simp
  have r: "someRowContains demo_env grid_sok word_ok" by code_simp
  from checkGridForWord_iff_someRowContains [OF h, of word_ok] r h show ?thesis by simp
qed

text \<open>
  The claim as written reads the row with the characters as the tiles carry them. With the
  capital tiles S, O, K in a row the detector accepts the target "sok", although the row
  as placed does not contain it.
\<close>

theorem checkGridForWord_capital_tiles_counterexample:
  "checkGridForWord demo_env grid_SOK word_sok \<and> \<not> someRowContainsAsPlaced demo_env grid_SOK word_sok"
  by code_simp

text \<open>The examples of the specification, and a target split over the end of a row.\<close>

lemma checkGridForWord_sok: "checkGridForWord demo_env grid_sok word_sok"
  by code_simp

lemma checkGridForWord_ok: "checkGridForWord demo_env grid_sok word_ok"
  by code_simp

lemma checkGridForWord_kos: "\<not> checkGridForWord demo_env grid_sok word_kos"
  by code_simp

lemma checkGridForWord_no_wrap: "\<not> checkGridForWord demo_env grid_ok_wrapped word_ok"
  by code_simp

text \<open>
  C10. On a grid with at least one row, whatever its cells hold, the detector answers true
  when the target normalizes to the empty string.
\<close>

theorem checkGridForWord_empty_target:
  assumes "0 < GRID_ROWS E" "toLowerCase E (removeDashes W) = []"
  shows "checkGridForWord E G W"
  using assms by (auto simp: checkGridForWord_def list_ex_iff rowMatches_iff matchAt_def)

theorem checkGridForWord_empty_target_witness:
  "0 < GRID_ROWS demo_env \<and> toLowerCase demo_env (removeDashes [45]) = []
   \<and> checkGridForWord demo_env Map.empty [45]"
proof -
  have a: "0 < GRID_ROWS demo_env" by (simp add: demo_env_def)
  have b: "toLowerCase demo_env (removeDashes [45]) = []"
    by (simp add: demo_env_def removeDashes_def toLowerCase_ru_def)
  from checkGridForWord_empty_target [OF a b, of Map.empty] a b show ?thesis by simp
qed

subsection \<open>Matches and failed steps\<close>

lemma handleTaskSuccess_fields:
  "failedStepsCount (handleTaskSuccess C tk S) =
     (if moveCount C > length (removeDashes (task_text tk)) + 3
      then failedStepsCount S + 1 else failedStepsCount S)"
  "isProcessingSuccess (handleTaskSuccess C tk S)"
  "moveCount (handleTaskSuccess C tk S) = moveCount S"
  "gridState (handleTaskSuccess C tk S) = gridState S"
  by (simp_all add: handleTaskSuccess_def Let_def speakText_def)

text \<open>A drag end that locks an unlocked session went through the success path.\<close>

lemma handleDragEnd_match:
  assumes "\<not> gameFinished S" "\<not> isProcessingSuccess S"
    and "isProcessingSuccess (handleDragEnd E S ev)"
  shows "\<exists>ov nextState tk. over ev = Some ov \<and> dropLogic (gridState S) ev ov = (nextState, True)
      \<and> js_index (tasks S) (currentTaskIndex S) = Some tk
      \<and> checkGridForWord E nextState (task_text tk)
      \<and> handleDragEnd E S ev =
          handleTaskSuccess S tk
            (playSound Drop (S\<lparr>activeDragData := None\<rparr>)
               \<lparr>gridState := nextState, moveCount := moveCount S + 1\<rparr>)"
  using assms
  by (auto simp: handleDragEnd_def Let_def playSound_def speakText_def
      split: option.splits prod.splits if_splits)

text \<open>
  What the code does at a match: the matching move is counted, and the step is failed
  when the count before that move exceeds the target's length plus 3, that is, when the
  count including it exceeds the length plus 4.
\<close>

lemma handleDragEnd_failed_step:
  assumes "\<not> gameFinished S" "\<not> isProcessingSuccess S"
    and "isProcessingSuccess (handleDragEnd E S ev)"
    and "js_index (tasks S) (currentTaskIndex S) = Some tk"
  shows "moveCount (handleDragEnd E S ev) = moveCount S + 1 \<and>
         failedStepsCount (handleDragEnd E S ev) =
           (if moveCount (handleDragEnd E S ev) > length (removeDashes (task_text tk)) + 4
            then failedStepsCount S + 1 else failedStepsCount S)"
proof -
  from handleDragEnd_match [OF assms(1-3)] assms(4)
  obtain nextState where
    eq: "handleDragEnd E S ev =
          handleTaskSuccess S tk
            (playSound Drop (S\<lparr>activeDragData := None\<rparr>)
               \<lparr>gridState := nextState, moveCount := moveCount S + 1\<rparr>)"
    by auto
  show ?thesis
    unfolding eq by (auto simp: handleTaskSuccess_fields playSound_def)
qed

text \<open>
  C1. The claim has a match reached on move 6 of the task "a-m" (length 2, threshold 5)
  marked failed. The session below has made five moves; the sixth completes the syllable.
  \<open>handleTaskSuccess\<close> compares the count of the render, 5, with the threshold: the
  step is not failed and \<open>failedStepsCount\<close> stays 0.
\<close>

theorem handleDragEnd_match_on_sixth_move_not_failed:
  "moveCount session_a_m_5 = 5 \<and> failedStepsCount session_a_m_5 = 0
   \<and> isProcessingSuccess (handleDragEnd demo_env session_a_m_5 drop_m_on_cell_1)
   \<and> moveCount (handleDragEnd demo_env session_a_m_5 drop_m_on_cell_1) = 6
   \<and> failedStepsCount (handleDragEnd demo_env session_a_m_5 drop_m_on_cell_1) = 0"
  by code_simp

subsection \<open>The lock\<close>

text \<open>
  C7. While the success choreography is in progress or the game is finished, a drag start
  leaves the session as it is, and a drag end only clears the drag payload: the grid, the
  move count, the failed-steps count and the completed flags are unchanged.
\<close>

theorem drag_events_rejected_while_locked:
  assumes "isProcessingSuccess S \<or> gameFinished S"
  shows "handleDragStart S d = S \<and> handleDragEnd E S ev = S\<lparr>activeDragData := None\<rparr>
     \<and> gridState (handleDragEnd E S ev) = gridState S
     \<and> moveCount (handleDragEnd E S ev) = moveCount S
     \<and> failedStepsCount (handleDragEnd E S ev) = failedStepsCount S
     \<and> completedSteps (handleDragEnd E S ev) = completedSteps S"
  using assms by (auto simp: handleDragStart_def handleDragEnd_def)

theorem drag_events_rejected_while_locked_witness:
  "isProcessingSuccess session_locked
   \<and> handleDragStart session_locked (active_data drop_s_on_cell_2) = session_locked
   \<and> gridState (handleDragEnd demo_env session_locked drop_s_on_cell_2) = gridState session_locked
   \<and> moveCount (handleDragEnd demo_env session_locked drop_s_on_cell_2) = moveCount session_locked"
proof -
  have h: "isProcessingSuccess session_locked" by code_simp
  then have "isProcessingSuccess session_locked \<or> gameFinished session_locked" by simp
  from drag_events_rejected_while_locked [OF this, of "active_data drop_s_on_cell_2" demo_env drop_s_on_cell_2] h
  show ?thesis by simp
qed

subsection \<open>Re-announcing\<close>

text \<open>
  C9, as amended. Re-announcing the current task changes neither the grid nor the move
  count, the failed-steps count or the completed flags. The button is on screen exactly
  while the game is not finished, and what a click speaks does not depend on whether the
  success choreography is in progress.
\<close>

theorem onReannounceClick_frame:
  "gridState (onReannounceClick S) = gridState S
   \<and> moveCount (onReannounceClick S) = moveCount S
   \<and> failedStepsCount (onReannounceClick S) = failedStepsCount S
   \<and> completedSteps (onReannounceClick S) = completedSteps S
   \<and> reannounceButtonRendered S = (\<not> gameFinished S)
   \<and> effects (onReannounceClick (S\<lparr>isProcessingSuccess := b\<rparr>)) = effects (onReannounceClick S)"
  by (simp add: onReannounceClick_def announceTask_def speakText_def
      reannounceButtonRendered_def Let_def split: option.splits)

text \<open>
  The claim as written permits re-announcing only while the session awaits input. In the
  locked session the button is on screen and a click speaks the prompt.
\<close>

theorem onReannounceClick_while_locked_counterexample:
  "isProcessingSuccess session_locked \<and> reannounceButtonRendered session_locked
   \<and> effects (onReannounceClick session_locked) =
       effects session_locked @ [SpeakText (prompt_syllable @ syllable_a_m)]"
  by code_simp

subsection \<open>Finalization\<close>




subsection \<open>Session initialisation\<close>

lemma mset_shuffle:
  assumes "rearrangement order (length xs)"
  shows "mset (shuffle order xs) = mset xs"
proof -
  have "mset (shuffle order xs) = image_mset (\<lambda>i. xs ! i) (mset order)"
    by (simp add: shuffle_def)
  also have "\<dots> = image_mset (\<lambda>i. xs ! i) (mset [0..<length xs])"
    using assms by (simp add: rearrangement_def)
  also have "\<dots> = mset (map (\<lambda>i. xs ! i) [0..<length xs])" by simp
  also have "\<dots> = mset xs" by (simp add: map_nth)
  finally show ?thesis .
qed

lemma length_3_conv: "length xs = 3 \<Longrightarrow> \<exists>a b c. xs = [a, b, c]"
  by (auto simp: numeral_3_eq_3 length_Suc_conv)

lemma take_3_of_shuffle:
  assumes "rearrangement order (length xs)" "distinct xs" "3 \<le> length xs"
  shows "\<exists>a b c. take 3 (shuffle order xs) = [a, b, c] \<and> distinct [a, b, c]
           \<and> set [a, b, c] \<subseteq> set xs"
proof -
  let ?ys = "shuffle order xs"
  from mset_shuffle [OF assms(1)] have m: "mset ?ys = mset xs" .
  then have d: "distinct ?ys" using assms(2) by (metis mset_eq_imp_distinct_iff)
  from m have s: "set ?ys = set xs" by (rule mset_eq_setD)
  from m have "length ?ys = length xs" by (rule mset_eq_length)
  with assms(3) have "length (take 3 ?ys) = 3" by simp
  from length_3_conv [OF this] obtain a b c where t: "take 3 ?ys = [a, b, c]"
    by blast
  from d have "distinct (take 3 ?ys)" by simp
  moreover have "set (take 3 ?ys) \<subseteq> set xs" using s set_take_subset by fastforce
  ultimately show ?thesis using t by auto
qed

text \<open>
  C6. For a letter whose syllables and whose words are each at least three distinct texts,
  the mount effect produces six tasks: three distinct syllables of the letter followed by
  three distinct words of the letter, whatever orders the two shuffles produce; the
  counters are zero, no step is completed, and the session is neither locked nor finished.
\<close>

theorem initEffect_six_tasks:
  assumes "LEARNING_DATA E l = Some data"
    "distinct (syllables data)" "distinct (words data)"
    "3 \<le> length (syllables data)" "3 \<le> length (words data)"
    "rearrangement syllableOrder (length (syllables data))"
    "rearrangement wordOrder (length (words data))"
  shows "let S = initEffect E syllableOrder wordOrder (initialSession l store); ts = tasks S in
     length ts = 6
     \<and> map task_type ts = [Syllable, Syllable, Syllable, Word, Word, Word]
     \<and> distinct (map task_text (take 3 ts))
     \<and> set (map task_text (take 3 ts)) \<subseteq> set (syllables data)
     \<and> distinct (map task_text (drop 3 ts))
     \<and> set (map task_text (drop 3 ts)) \<subseteq> set (words data)
     \<and> currentTaskIndex S = 0 \<and> moveCount S = 0 \<and> failedStepsCount S = 0
     \<and> completedSteps S = replicate 6 False
     \<and> \<not> isProcessingSuccess S \<and> \<not> gameFinished S"
proof -
  from take_3_of_shuffle [OF assms(6,2,4)] obtain a b c where
    s: "take 3 (shuffle syllableOrder (syllables data)) = [a, b, c]" "distinct [a, b, c]"
       "set [a, b, c] \<subseteq> set (syllables data)" by blast
  from take_3_of_shuffle [OF assms(7,3,5)] obtain u v w where
    w: "take 3 (shuffle wordOrder (words data)) = [u, v, w]" "distinct [u, v, w]"
       "set [u, v, w] \<subseteq> set (words data)" by blast
  have l: "letter (initialSession l store) = l" by (simp add: initialSession_def)
  show ?thesis
    using s(2,3) w(2,3) assms(1)
    by (simp add: initEffect_def Let_def l s(1) w(1)) (simp add: initialSession_def)
qed

theorem initEffect_six_tasks_witness:
  "LEARNING_DATA demo_env letter_A = Some demo_data
   \<and> rearrangement [2, 0, 3, 1] (length (syllables demo_data))
   \<and> rearrangement [1, 3, 0, 2] (length (words demo_data))
   \<and> length (tasks (initEffect demo_env [2, 0, 3, 1] [1, 3, 0, 2] (initialSession letter_A NoItem))) = 6
   \<and> map task_type (tasks (initEffect demo_env [2, 0, 3, 1] [1, 3, 0, 2] (initialSession letter_A NoItem)))
       = [Syllable, Syllable, Syllable, Word, Word, Word]
   \<and> map task_text (tasks (initEffect demo_env [2, 0, 3, 1] [1, 3, 0, 2] (initialSession letter_A NoItem)))
       = [syllable_u_m, syllable_a_m, syllable_a_u, word_sok, word_ok, word_mama]"
proof -
  have h: "LEARNING_DATA demo_env letter_A = Some demo_data"
    "distinct (syllables demo_data)" "distinct (words demo_data)"
    "3 \<le> length (syllables demo_data)" "3 \<le> length (words demo_data)"
    "rearrangement [2, 0, 3, 1] (length (syllables demo_data))"
    "rearrangement [1, 3, 0, 2] (length (words demo_data))"
    by code_simp+
  have t: "map task_text (tasks (initEffect demo_env [2, 0, 3, 1] [1, 3, 0, 2] (initialSession letter_A NoItem)))
       = [syllable_u_m, syllable_a_m, syllable_a_u, word_sok, word_ok, word_mama]"
    by code_simp
  from initEffect_six_tasks [OF h, of NoItem] h(1,6,7) t show ?thesis
    by (simp add: Let_def)
qed

subsection \<open>The drop logic\<close>

lemma ids_unique_delete: "ids_unique g \<Longrightarrow> ids_unique (g(i := None))"
  unfolding ids_unique_def by (auto split: if_splits)

lemma ids_unique_swap:
  assumes "ids_unique g" "g i = Some A"
  shows "ids_unique (g(i := g t, t \<mapsto> A))"
  using assms unfolding ids_unique_def
  by (auto split: if_splits)

lemma ids_unique_place:
  assumes "ids_unique g" "x \<notin> tile_id ` ran g"
  shows "ids_unique (g(t \<mapsto> \<lparr>tile_char = c, tile_id = x\<rparr>))"
proof -
  have "\<And>j b. g j = Some b \<Longrightarrow> tile_id b \<noteq> x"
    using assms(2) by (auto simp: ran_def image_iff)
  with assms(1) show ?thesis
    unfolding ids_unique_def by (auto split: if_splits; blast)
qed

lemma dropLogic_unchanged: "dropLogic g ev ov = (n, False) \<Longrightarrow> n = g"
  by (auto simp: dropLogic_def Let_def split: drop_target.splits option.splits origin.splits if_splits)

lemma movedTileId_of_tile:
  "drag_id d = Some (tile_id t) \<Longrightarrow> tile_id t \<noteq> [] \<Longrightarrow> movedTileId d now = tile_id t"
  by (simp add: movedTileId_def)

text \<open>The move of a grid tile to another cell, with a payload that describes the tile.\<close>

lemma dropLogic_grid_move:
  assumes "drag_origin (active_data ev) = Grid" "drag_index (active_data ev) = Some i"
    "g i = Some A" "payloadOfGridTile g (active_data ev)" "i \<noteq> t"
  shows "dropLogic g ev (Cell (Some t)) = (g(i := g t, t \<mapsto> A), True)"
proof -
  from assms(2-4) have p: "drag_char (active_data ev) = tile_char A"
    "movedTileId (active_data ev) (date_now ev) = tile_id A"
    by (auto simp: payloadOfGridTile_def movedTileId_def)
  then have A: "\<lparr>tile_char = drag_char (active_data ev), tile_id = movedTileId (active_data ev) (date_now ev)\<rparr> = A"
    by simp
  have n: "(case g t of Some e \<Rightarrow> (g(i := None))(i \<mapsto> e) | None \<Rightarrow> g(i := None)) = g(i := g t)"
    by (cases "g t") auto
  from assms(1,2,5) show ?thesis
    by (simp add: dropLogic_def Let_def n A)
qed

lemma dropLogic_ids_unique:
  assumes "ids_unique g" "wellFormedDrag g ev"
  shows "ids_unique (fst (dropLogic g ev ov))"
proof (cases "drag_origin (active_data ev)")
  case Grid
  with assms(2) have p: "payloadOfGridTile g (active_data ev)" by (simp add: wellFormedDrag_def)
  then obtain i A where i: "drag_index (active_data ev) = Some i" "g i = Some A"
    by (auto simp: payloadOfGridTile_def split: option.splits)
  show ?thesis
  proof (cases ov)
    case KeyboardArea
    with Grid i assms(1) show ?thesis by (simp add: dropLogic_def ids_unique_delete)
  next
    case (Cell x)
    show ?thesis
    proof (cases x)
      case None
      with Cell Grid assms(1) show ?thesis by (simp add: dropLogic_def)
    next
      case (Some t)
      show ?thesis
      proof (cases "i = t")
        case True
        with Some Cell Grid i assms(1) show ?thesis by (simp add: dropLogic_def)
      next
        case False
        from dropLogic_grid_move [OF Grid i p False] Some Cell ids_unique_swap [OF assms(1) i(2)]
        show ?thesis by simp
      qed
    qed
  next
    case OtherTarget
    with Grid assms(1) show ?thesis by (simp add: dropLogic_def)
  qed
next
  case Keyboard
  with assms(2) have f: "placedTileId (active_data ev) (date_now ev) (math_random ev) \<notin> tile_id ` ran g"
    by (simp add: wellFormedDrag_def)
  show ?thesis
  proof (cases ov)
    case (Cell x)
    with Keyboard assms(1) ids_unique_place [OF assms(1) f] show ?thesis
      by (cases x) (simp_all add: dropLogic_def Let_def)
  qed (use Keyboard assms(1) in \<open>simp_all add: dropLogic_def\<close>)
qed

lemma handleDragEnd_gridState:
  assumes "\<not> gameFinished S" "\<not> isProcessingSuccess S"
  shows "gridState (handleDragEnd E S ev) =
           (case over ev of None \<Rightarrow> gridState S | Some ov \<Rightarrow> fst (dropLogic (gridState S) ev ov))"
  using assms
  by (auto simp: handleDragEnd_def Let_def playSound_def speakText_def handleTaskSuccess_def
      split: option.splits prod.splits dest: dropLogic_unchanged)





lemma ran_swap:
  assumes "g i = Some A" "g j = Some B"
  shows "ran (g(i := g j, j \<mapsto> A)) = ran g"
proof
  show "ran (g(i := g j, j \<mapsto> A)) \<subseteq> ran g"
    using assms by (auto simp: ran_def split: if_splits)
  show "ran g \<subseteq> ran (g(i := g j, j \<mapsto> A))"
  proof
    fix x assume "x \<in> ran g"
    then obtain k where k: "g k = Some x" by (auto simp: ran_def)
    consider "k = i" | "k = j" | "k \<noteq> i" "k \<noteq> j" by blast
    then show "x \<in> ran (g(i := g j, j \<mapsto> A))"
    proof cases
      case 1
      with k assms have "x = A" by simp
      then have "(g(i := g j, j \<mapsto> A)) j = Some x" by simp
      then show ?thesis unfolding ran_def by blast
    next
      case 2
      with k assms have "x = B" by simp
      with assms 2 k have "(g(i := g j, j \<mapsto> A)) i = Some x \<or> i = j" by auto
      with k 2 assms show ?thesis unfolding ran_def by (cases "i = j") auto
    next
      case 3
      with k have "(g(i := g j, j \<mapsto> A)) k = Some x" by simp
      then show ?thesis unfolding ran_def by blast
    qed
  qed
qed

text \<open>
  The id of a placed keyboard tile is built from the character, the clock and the random
  number. For one character and clock readings that are digit strings, two such ids are
  equal only if both the clock reading and the random number are.
\<close>

lemma split_at_first_dash:
  assumes "45 \<notin> set xs" "45 \<notin> set xs'" "xs @ 45 # ys = xs' @ 45 # (ys'::nat list)"
  shows "xs = xs' \<and> ys = ys'"
  using assms
proof (induction xs arbitrary: xs')
  case Nil
  then show ?case by (cases xs') auto
next
  case (Cons a xs)
  then show ?case by (cases xs') auto
qed

lemma placedTileId_inj:
  assumes "45 \<notin> set now" "45 \<notin> set now'"
    and "placedTileId d now rnd = placedTileId d now' rnd'"
  shows "now = now' \<and> rnd = rnd'"
proof -
  from assms(3) have "now @ 45 # rnd = now' @ 45 # rnd'"
    by (simp add: placedTileId_def js_def)
  from split_at_first_dash [OF assms(1,2) this] show ?thesis .
qed

text \<open>
  So the id of a new tile is not on the grid when every tile there was placed for the same
  character at another clock reading or with another random number.
\<close>

lemma placedTileId_fresh:
  assumes "45 \<notin> set now"
    and "\<And>t. t \<in> ran g \<Longrightarrow>
           \<exists>now' rnd'. tile_id t = placedTileId d now' rnd' \<and> 45 \<notin> set now'
                        \<and> (now', rnd') \<noteq> (now, rnd)"
  shows "placedTileId d now rnd \<notin> tile_id ` ran g"
proof
  assume "placedTileId d now rnd \<in> tile_id ` ran g"
  then obtain t where t: "t \<in> ran g" "placedTileId d now rnd = tile_id t" by auto
  from assms(2) [OF t(1)] obtain now' rnd' where
    n: "tile_id t = placedTileId d now' rnd'" "45 \<notin> set now'" "(now', rnd') \<noteq> (now, rnd)"
    by blast
  from t(2) n(1) have "placedTileId d now rnd = placedTileId d now' rnd'" by simp
  from placedTileId_inj [OF assms(1) n(2) this] n(3) show False by simp
qed

lemma gridState_session_one_a: "gridState session_one_a = [0 \<mapsto> tile_a_placed]"
proof -
  have u: "\<not> gameFinished session_fresh" "\<not> isProcessingSuccess session_fresh"
    by (simp_all add: session_fresh_def initialSession_def)
  show ?thesis
    unfolding session_one_a_def handleDragEnd_gridState [OF u]
    by (simp add: session_fresh_def initialSession_def key_a_to_cell_def dropLogic_def
        drag_key_a_def Let_def placedTileId_def tile_a_placed_def js_def)
qed

lemma gridState_second_a:
  "gridState (handleDragEnd demo_env session_one_a (key_a_to_cell 1))
     = [0 \<mapsto> tile_a_placed, 1 \<mapsto> tile_a_placed]"
proof -
  have u: "\<not> gameFinished session_one_a" "\<not> isProcessingSuccess session_one_a"
    by code_simp+
  show ?thesis
    unfolding handleDragEnd_gridState [OF u] gridState_session_one_a
    by (simp add: key_a_to_cell_def dropLogic_def drag_key_a_def Let_def placedTileId_def
        tile_a_placed_def js_def)
qed

text \<open>
  C4, as amended. A drag end keeps every tile id in at most one cell when the payload of a
  grid drag describes the dragged tile and, for a keyboard tile, when the id generated
  from the clock and the random number is not yet on the grid; the code does not check
  the latter. In an unlocked session, dragging the tile A of cell i onto a different cell j
  that holds the tile B puts A, with its id, in j and B, with its id, in i, leaves every
  other cell as it was, and leaves the set of tiles on the grid as it was.
\<close>

theorem handleDragEnd_swap_and_unique_ids:
  assumes "ids_unique (gridState S)" "wellFormedDrag (gridState S) ev"
  shows "ids_unique (gridState (handleDragEnd E S ev)) \<and>
    (\<forall>i j A B.
        \<not> gameFinished S \<and> \<not> isProcessingSuccess S
        \<and> drag_origin (active_data ev) = Grid \<and> drag_index (active_data ev) = Some i
        \<and> over ev = Some (Cell (Some j)) \<and> i \<noteq> j
        \<and> gridState S i = Some A \<and> gridState S j = Some B \<longrightarrow>
          gridState (handleDragEnd E S ev) j = Some A
          \<and> gridState (handleDragEnd E S ev) i = Some B
          \<and> (\<forall>k. k \<noteq> i \<and> k \<noteq> j \<longrightarrow> gridState (handleDragEnd E S ev) k = gridState S k)
          \<and> ran (gridState (handleDragEnd E S ev)) = ran (gridState S))"
proof
  show "ids_unique (gridState (handleDragEnd E S ev))"
  proof (cases "gameFinished S \<or> isProcessingSuccess S")
    case True
    with assms(1) show ?thesis by (auto simp: handleDragEnd_def)
  next
    case False
    with handleDragEnd_gridState [of S E ev] assms dropLogic_ids_unique [OF assms]
    show ?thesis by (cases "over ev") auto
  qed
next
  show "\<forall>i j A B.
        \<not> gameFinished S \<and> \<not> isProcessingSuccess S
        \<and> drag_origin (active_data ev) = Grid \<and> drag_index (active_data ev) = Some i
        \<and> over ev = Some (Cell (Some j)) \<and> i \<noteq> j
        \<and> gridState S i = Some A \<and> gridState S j = Some B \<longrightarrow>
          gridState (handleDragEnd E S ev) j = Some A
          \<and> gridState (handleDragEnd E S ev) i = Some B
          \<and> (\<forall>k. k \<noteq> i \<and> k \<noteq> j \<longrightarrow> gridState (handleDragEnd E S ev) k = gridState S k)
          \<and> ran (gridState (handleDragEnd E S ev)) = ran (gridState S)"
  proof (intro allI impI, elim conjE)
    fix i j A B
    assume u: "\<not> gameFinished S" "\<not> isProcessingSuccess S"
      and d: "drag_origin (active_data ev) = Grid" "drag_index (active_data ev) = Some i"
      and o: "over ev = Some (Cell (Some j))" and ne: "i \<noteq> j"
      and g: "gridState S i = Some A" "gridState S j = Some B"
    from assms(2) d(1) have p: "payloadOfGridTile (gridState S) (active_data ev)"
      by (simp add: wellFormedDrag_def)
    from handleDragEnd_gridState [OF u, of E ev] o dropLogic_grid_move [OF d g(1) p ne]
    have eq: "gridState (handleDragEnd E S ev) = (gridState S)(i := gridState S j, j \<mapsto> A)"
      by simp
    from ran_swap [of "gridState S" i A j B, OF g] have "ran ((gridState S)(i := gridState S j, j \<mapsto> A)) = ran (gridState S)" .
    with g ne show "gridState (handleDragEnd E S ev) j = Some A
          \<and> gridState (handleDragEnd E S ev) i = Some B
          \<and> (\<forall>k. k \<noteq> i \<and> k \<noteq> j \<longrightarrow> gridState (handleDragEnd E S ev) k = gridState S k)
          \<and> ran (gridState (handleDragEnd E S ev)) = ran (gridState S)"
      unfolding eq by simp
  qed
qed

theorem handleDragEnd_swap_and_unique_ids_witness:
  "ids_unique (gridState session_sok) \<and> wellFormedDrag (gridState session_sok) tile_0_to_cell_1
   \<and> gridState session_sok 0 = Some \<lparr>tile_char = [0x441], tile_id = js ''t1''\<rparr>
   \<and> gridState session_sok 1 = Some \<lparr>tile_char = [0x43E], tile_id = js ''t2''\<rparr>
   \<and> ids_unique (gridState (handleDragEnd demo_env session_sok tile_0_to_cell_1))
   \<and> gridState (handleDragEnd demo_env session_sok tile_0_to_cell_1) 1
       = Some \<lparr>tile_char = [0x441], tile_id = js ''t1''\<rparr>
   \<and> gridState (handleDragEnd demo_env session_sok tile_0_to_cell_1) 0
       = Some \<lparr>tile_char = [0x43E], tile_id = js ''t2''\<rparr>
   \<and> ran (gridState (handleDragEnd demo_env session_sok tile_0_to_cell_1)) = ran (gridState session_sok)"
proof -
  have g: "gridState session_sok = grid_sok" by (simp add: session_sok_def initialSession_def)
  have u: "ids_unique (gridState session_sok)"
    unfolding g by (auto simp: ids_unique_def grid_sok_def js_def split: if_splits)
  have w: "wellFormedDrag (gridState session_sok) tile_0_to_cell_1"
    unfolding g
    by (simp add: wellFormedDrag_def payloadOfGridTile_def tile_0_to_cell_1_def
        drag_of_tile_0_def grid_sok_def js_def)
  have c: "\<not> gameFinished session_sok" "\<not> isProcessingSuccess session_sok"
    "drag_origin (active_data tile_0_to_cell_1) = Grid"
    "drag_index (active_data tile_0_to_cell_1) = Some 0"
    "over tile_0_to_cell_1 = Some (Cell (Some 1))"
    "gridState session_sok 0 = Some \<lparr>tile_char = [0x441], tile_id = js ''t1''\<rparr>"
    "gridState session_sok 1 = Some \<lparr>tile_char = [0x43E], tile_id = js ''t2''\<rparr>"
    by code_simp+
  from handleDragEnd_swap_and_unique_ids [OF u w, of demo_env]
  have a: "ids_unique (gridState (handleDragEnd demo_env session_sok tile_0_to_cell_1))"
    and b: "\<And>i j A B. \<not> gameFinished session_sok \<Longrightarrow> \<not> isProcessingSuccess session_sok
        \<Longrightarrow> drag_origin (active_data tile_0_to_cell_1) = Grid
        \<Longrightarrow> drag_index (active_data tile_0_to_cell_1) = Some i
        \<Longrightarrow> over tile_0_to_cell_1 = Some (Cell (Some j)) \<Longrightarrow> i \<noteq> j
        \<Longrightarrow> gridState session_sok i = Some A \<Longrightarrow> gridState session_sok j = Some B
        \<Longrightarrow> gridState (handleDragEnd demo_env session_sok tile_0_to_cell_1) j = Some A
          \<and> gridState (handleDragEnd demo_env session_sok tile_0_to_cell_1) i = Some B
          \<and> ran (gridState (handleDragEnd demo_env session_sok tile_0_to_cell_1))
              = ran (gridState session_sok)"
    by blast+
  have "(0::nat) \<noteq> 1" by simp
  from b [OF c(1-5) this c(6,7)] a u w c(6,7) show ?thesis by simp
qed

text \<open>
  The claim as written has every drag end keep the ids unique. Two drops of the keyboard
  tile a for which the clock and the random number read the same give both tiles the same
  id: after the first drop the ids are unique, after the second they are not.
\<close>

theorem handleDragEnd_same_id_twice_counterexample:
  "ids_unique (gridState session_one_a)
   \<and> gridState (handleDragEnd demo_env session_one_a (key_a_to_cell 1)) 0 = Some tile_a_placed
   \<and> gridState (handleDragEnd demo_env session_one_a (key_a_to_cell 1)) 1 = Some tile_a_placed
   \<and> \<not> ids_unique (gridState (handleDragEnd demo_env session_one_a (key_a_to_cell 1)))"
proof -
  have a: "ids_unique (gridState session_one_a)"
    unfolding gridState_session_one_a by (auto simp: ids_unique_def split: if_splits)
  have g: "gridState (handleDragEnd demo_env session_one_a (key_a_to_cell 1)) 0 = Some tile_a_placed"
    "gridState (handleDragEnd demo_env session_one_a (key_a_to_cell 1)) 1 = Some tile_a_placed"
    unfolding gridState_second_a by simp_all
  have "\<not> ids_unique (gridState (handleDragEnd demo_env session_one_a (key_a_to_cell 1)))"
  proof
    assume "ids_unique (gridState (handleDragEnd demo_env session_one_a (key_a_to_cell 1)))"
    with g have "(0::nat) = 1" unfolding ids_unique_def by blast
    then show False by simp
  qed
  with a g show ?thesis by simp
qed



end
